theory Spec2Isabelle
  imports Main
begin

section \<open>The chat relay of \<open>server_ws.py\<close>\<close>

text \<open>
  The server keeps one dictionary \<open>clients\<close> from usernames to websocket handles and
  runs one \<open>handler\<close> coroutine per connection. The embedding below follows the source
  function by function. What lies outside the source is made explicit:
  \<^item> a websocket handle is a number; what the server does to a handle (every call of
    \<open>ws.send\<close> and of \<open>ws.close\<close>) is appended to a trace, in order;
  \<^item> \<open>ws.send\<close> raises on a handle that the server has closed or whose peer is gone
    (the set \<open>broken\<close>, chosen by the environment);
  \<^item> \<open>json.loads\<close> is library code: an inbound frame is represented by what
    \<open>json.loads\<close> makes of it (an exception, or a JSON value; floats are left out, and
    an object lists the items of the dict that \<open>json.loads\<close> built, each key once);
  \<^item> \<open>now_ts()\<close> reads the field \<open>clock\<close>;
  \<^item> strings are lists of 8-bit characters, so the text covers code points below 256;
  \<^item> every stretch of a handler between two inbound frames runs without another
    coroutine in between (the registry lock is not modelled separately).
\<close>

subsection \<open>Python strings\<close>

definition py_isspace :: "char \<Rightarrow> bool" where
  "py_isspace c = (of_char c \<in> {9, 10, 11, 12, 13, 28, 29, 30, 31, 32, 133, 160 :: nat})"

definition py_strip :: "string \<Rightarrow> string" where
  "py_strip s = rev (dropWhile py_isspace (rev (dropWhile py_isspace s)))"

definition py_startswith :: "string \<Rightarrow> string \<Rightarrow> bool" where
  "py_startswith s p = (take (length p) s = p)"

text \<open>\<open>s.split(sep, maxsplit)\<close> for a separator of one character.\<close>

fun py_split :: "string \<Rightarrow> char \<Rightarrow> nat \<Rightarrow> string list" where
  "py_split s sep 0 = [s]"
| "py_split s sep (Suc n) =
     (if sep \<in> set s
      then takeWhile (\<lambda>c. c \<noteq> sep) s # py_split (tl (dropWhile (\<lambda>c. c \<noteq> sep) s)) sep n
      else [s])"

subsection \<open>JSON values and Python's operations on them\<close>

datatype json =
    JNull
  | JBool bool
  | JInt int
  | JStr string
  | JArr "json list"
  | JObj "(string \<times> json) list"

datatype exn =
    TimeoutError
  | ConnectionClosed
  | JSONDecodeError
  | AttributeError
  | TypeError
  | KeyError

datatype frame = Garbage | Doc json

definition json_loads :: "frame \<Rightarrow> exn + json" where
  "json_loads f = (case f of Garbage \<Rightarrow> Inl JSONDecodeError | Doc j \<Rightarrow> Inr j)"

text \<open>\<open>obj.get(key)\<close>: only a dict has the method; a missing key gives \<open>None\<close>.\<close>

definition py_get :: "json \<Rightarrow> string \<Rightarrow> exn + json option" where
  "py_get obj key = (case obj of JObj kvs \<Rightarrow> Inr (map_of kvs key) | _ \<Rightarrow> Inl AttributeError)"

text \<open>\<open>key in obj\<close>, asked of a dict only (after a \<open>.get\<close> on it went through).\<close>

definition py_has_key :: "json \<Rightarrow> string \<Rightarrow> bool" where
  "py_has_key obj key = (case obj of JObj kvs \<Rightarrow> key \<in> set (map fst kvs) | _ \<Rightarrow> False)"

text \<open>Truth value of what \<open>.get\<close> returned (\<open>None\<close> when the key is missing).\<close>

fun py_truthy :: "json option \<Rightarrow> bool" where
  "py_truthy None = False"
| "py_truthy (Some JNull) = False"
| "py_truthy (Some (JBool b)) = b"
| "py_truthy (Some (JInt n)) = (n \<noteq> 0)"
| "py_truthy (Some (JStr s)) = (s \<noteq> [])"
| "py_truthy (Some (JArr xs)) = (xs \<noteq> [])"
| "py_truthy (Some (JObj kvs)) = (kvs \<noteq> [])"

text \<open>\<open>value.strip()\<close>: only a string has the method.\<close>

definition py_strip_value :: "json \<Rightarrow> exn + string" where
  "py_strip_value v = (case v of JStr s \<Rightarrow> Inr (py_strip s) | _ \<Rightarrow> Inl AttributeError)"

subsection \<open>Server configuration\<close>

definition CHAT_PASSWORD :: string where
  "CHAT_PASSWORD = ''letmein''"

definition MAX_MSG :: nat where
  "MAX_MSG = 10000"

subsection \<open>Outbound packets, handles and the world\<close>

type_synonym ws = nat

datatype packet =
    AuthOk
  | AuthFail string
  | Chat string string string
  | Private string string string
  | System string
  | Users "string list"

datatype event = Send ws packet | Close ws

record world =
  clients :: "(string \<times> ws) list"
  closed :: "ws set"
  broken :: "ws set"
  trace :: "event list"
  clock :: string

text \<open>The dictionary \<open>clients\<close>, in insertion order.\<close>

definition dict_get :: "(string \<times> ws) list \<Rightarrow> string \<Rightarrow> ws option" where
  "dict_get d k = map_of d k"

definition dict_in :: "string \<Rightarrow> (string \<times> ws) list \<Rightarrow> bool" where
  "dict_in k d = (k \<in> set (map fst d))"

definition dict_set :: "(string \<times> ws) list \<Rightarrow> string \<Rightarrow> ws \<Rightarrow> (string \<times> ws) list" where
  "dict_set d k v =
     (if dict_in k d then map (\<lambda>(k', v'). if k' = k then (k', v) else (k', v')) d
      else d @ [(k, v)])"

definition dict_del :: "(string \<times> ws) list \<Rightarrow> string \<Rightarrow> (string \<times> ws) list" where
  "dict_del d k = filter (\<lambda>(k', v'). k' \<noteq> k) d"

definition dict_keys :: "(string \<times> ws) list \<Rightarrow> string list" where
  "dict_keys d = map fst d"

definition now_ts :: "world \<Rightarrow> string" where
  "now_ts st = clock st"

subsection \<open>\<open>send_json\<close> and \<open>broadcast_packet\<close>\<close>

text \<open>
  \<open>ws.send\<close>: the call is recorded; it raises \<open>ConnectionClosed\<close> on a closed or broken
  handle. \<open>ws.close\<close> marks the handle closed.
\<close>

definition ws_send :: "ws \<Rightarrow> packet \<Rightarrow> world \<Rightarrow> exn option \<times> world" where
  "ws_send ws obj st =
     (if ws \<in> closed st \<or> ws \<in> broken st
      then (Some ConnectionClosed, st\<lparr>trace := trace st @ [Send ws obj]\<rparr>)
      else (None, st\<lparr>trace := trace st @ [Send ws obj]\<rparr>))"

definition ws_close :: "ws \<Rightarrow> world \<Rightarrow> world" where
  "ws_close ws st = st\<lparr>closed := insert ws (closed st), trace := trace st @ [Close ws]\<rparr>"

text \<open>\<open>try: await ws.send(...) except: pass\<close>.\<close>

definition send_json :: "ws \<Rightarrow> packet \<Rightarrow> world \<Rightarrow> exn option \<times> world" where
  "send_json ws obj st =
     (case ws_send ws obj st of
        (Some e, st') \<Rightarrow> (None, st')
      | (None, st') \<Rightarrow> (None, st'))"

text \<open>
  The loop of \<open>broadcast_packet\<close> over \<open>list(clients.items())\<close>; the \<open>except\<close> branch
  deletes the user whose \<open>send_json\<close> raised.
\<close>

fun broadcast_items ::
  "packet \<Rightarrow> string option \<Rightarrow> (string \<times> ws) list \<Rightarrow> world \<Rightarrow> world" where
  "broadcast_items packet exclude_username [] st = st"
| "broadcast_items packet exclude_username ((user, ws) # rest) st =
     (if Some user = exclude_username
      then broadcast_items packet exclude_username rest st
      else (case send_json ws packet st of
              (None, st') \<Rightarrow> broadcast_items packet exclude_username rest st'
            | (Some e, st') \<Rightarrow>
                broadcast_items packet exclude_username rest
                  (st'\<lparr>clients := dict_del (clients st') user\<rparr>)))"

definition broadcast_packet :: "packet \<Rightarrow> string option \<Rightarrow> world \<Rightarrow> world" where
  "broadcast_packet packet exclude_username st =
     broadcast_items packet exclude_username (clients st) st"

subsection \<open>\<open>handle_command\<close>\<close>

text \<open>
  The result is the returned flag (or the exception raised) and the world afterwards.
  \<open>clients.get(to_user)\<close> is a handle or \<open>None\<close>, and a handle counts as true.
\<close>

definition handle_command :: "string \<Rightarrow> string \<Rightarrow> ws \<Rightarrow> world \<Rightarrow> (exn + bool) \<times> world" where
  "handle_command username text ws st =
     (let l = py_strip text in
      if l = ''/users'' then
        (let users = dict_keys (clients st) in
         case send_json ws (Users users) st of
           (Some e, st') \<Rightarrow> (Inl e, st')
         | (None, st') \<Rightarrow> (Inr True, st'))
      else if py_startswith l ''/msg '' then
        (let parts = py_split l CHR '' '' 2 in
         if length parts < 3 then
           (case send_json ws (System ''Usage: /msg <user> <message>'') st of
              (Some e, st') \<Rightarrow> (Inl e, st')
            | (None, st') \<Rightarrow> (Inr True, st'))
         else
           (let to_user = parts ! 1; message = parts ! 2 in
            case dict_get (clients st) to_user of
              None \<Rightarrow>
                (case send_json ws (System (''User '' @ [CHR 0x27] @ to_user @ [CHR 0x27] @ '' not found.'')) st of
                   (Some e, st') \<Rightarrow> (Inl e, st')
                 | (None, st') \<Rightarrow> (Inr True, st'))
            | Some target \<Rightarrow>
                (let packet = Private username message (now_ts st) in
                 case send_json target packet st of
                   (Some e, st1) \<Rightarrow> (Inl e, st1)
                 | (None, st1) \<Rightarrow>
                     (case send_json ws (System ''Private message sent.'') st1 of
                        (Some e, st2) \<Rightarrow> (Inl e, st2)
                      | (None, st2) \<Rightarrow> (Inr True, st2)))))
      else if l = ''/quit'' then
        (case send_json ws (System ''Goodbye.'') st of
           (Some e, st1) \<Rightarrow> (Inl e, st1)
         | (None, st1) \<Rightarrow> (Inr True, ws_close ws st1))
      else (Inr False, st))"

subsection \<open>\<open>handler\<close>: the handshake\<close>

text \<open>
  The condition \<open>auth.get("type") != "auth" or not auth.get("username") or not
  auth.get("password")\<close>, evaluated from left to right.
\<close>

definition auth_required :: "json \<Rightarrow> exn + bool" where
  "auth_required auth =
     (case py_get auth ''type'' of
        Inl e \<Rightarrow> Inl e
      | Inr ty \<Rightarrow>
          if ty \<noteq> Some (JStr ''auth'') then Inr True
          else (case py_get auth ''username'' of
                  Inl e \<Rightarrow> Inl e
                | Inr u \<Rightarrow>
                    if py_truthy u then
                      (case py_get auth ''password'' of
                         Inl e \<Rightarrow> Inl e
                       | Inr p \<Rightarrow> Inr (if py_truthy p then False else True))
                    else Inr True))"

text \<open>\<open>obj[key]\<close> with a string key.\<close>

definition py_item :: "json \<Rightarrow> string \<Rightarrow> exn + json" where
  "py_item obj key =
     (case obj of
        JObj kvs \<Rightarrow> (case map_of kvs key of None \<Rightarrow> Inl KeyError | Some v \<Rightarrow> Inr v)
      | _ \<Rightarrow> Inl TypeError)"

datatype auth_result = Returned | Raised exn | Authenticated string

text \<open>The three lines \<open>send_json(ws, auth_fail); ws.close(); return\<close>.\<close>

definition reject :: "ws \<Rightarrow> string \<Rightarrow> world \<Rightarrow> auth_result \<times> world" where
  "reject ws reason st =
     (case send_json ws (AuthFail reason) st of
        (Some e, st') \<Rightarrow> (Raised e, st')
      | (None, st') \<Rightarrow> (Returned, ws_close ws st'))"

text \<open>
  Everything up to the receive loop. The second argument is what
  \<open>asyncio.wait_for(ws.recv(), timeout=15)\<close> gives: a frame, or the exception it raises
  (\<open>TimeoutError\<close> when the window passes with no message).
\<close>

definition handler_auth :: "ws \<Rightarrow> exn + frame \<Rightarrow> world \<Rightarrow> auth_result \<times> world" where
  "handler_auth ws rcv st =
     (case rcv of
        Inl e \<Rightarrow> if e = TimeoutError then reject ws ''No auth received'' st else (Raised e, st)
      | Inr auth_raw \<Rightarrow>
     (case json_loads auth_raw of
        Inl e \<Rightarrow> reject ws ''Malformed auth'' st
      | Inr auth \<Rightarrow>
     (case auth_required auth of
        Inl e \<Rightarrow> (Raised e, st)
      | Inr True \<Rightarrow> reject ws ''Auth required'' st
      | Inr False \<Rightarrow>
     (case py_item auth ''username'' of
        Inl e \<Rightarrow> (Raised e, st)
      | Inr uv \<Rightarrow>
     (case py_strip_value uv of
        Inl e \<Rightarrow> (Raised e, st)
      | Inr username \<Rightarrow>
     (case py_item auth ''password'' of
        Inl e \<Rightarrow> (Raised e, st)
      | Inr password \<Rightarrow>
          if password \<noteq> JStr CHAT_PASSWORD then reject ws ''Wrong password'' st
          else if dict_in username (clients st) then reject ws ''Username already taken'' st
          else
            (let st1 = st\<lparr>clients := dict_set (clients st) username ws\<rparr> in
             case send_json ws AuthOk st1 of
               (Some e, st2) \<Rightarrow> (Raised e, st2)
             | (None, st2) \<Rightarrow>
                 (let st3 = broadcast_packet
                              (System (''*** '' @ username @ '' joined the chat ***''))
                              (Some username) st2;
                      users = dict_keys (clients st3);
                      st4 = broadcast_packet (Users users) None st3
                  in (Authenticated username, st4)))))))))"

subsection \<open>\<open>handler\<close>: the receive loop and the teardown\<close>

text \<open>
  \<open>packet["text"][:MAX_MSG]\<close> followed by the \<open>text.strip()\<close> that opens
  \<open>handle_command\<close>: a string is cut to \<open>MAX_MSG\<close> characters; a list can be sliced but
  has no \<open>strip\<close>; nothing else can be sliced.
\<close>

definition chat_text :: "json \<Rightarrow> exn + string" where
  "chat_text v =
     (case v of
        JStr s \<Rightarrow> Inr (take MAX_MSG s)
      | JArr xs \<Rightarrow> Inl AttributeError
      | _ \<Rightarrow> Inl TypeError)"

text \<open>One pass through the body of \<open>async for incoming in ws\<close>.\<close>

definition handler_step :: "string \<Rightarrow> ws \<Rightarrow> frame \<Rightarrow> world \<Rightarrow> exn option \<times> world" where
  "handler_step username ws incoming st =
     (case json_loads incoming of
        Inl e \<Rightarrow> send_json ws (System ''Malformed packet (expecting JSON).'') st
      | Inr packet \<Rightarrow>
     (case py_get packet ''type'' of
        Inl e \<Rightarrow> (Some e, st)
      | Inr ty \<Rightarrow>
          if ty \<noteq> Some (JStr ''chat'') then send_json ws (System ''Unknown packet type.'') st
          else if \<not> py_has_key packet ''text'' then
            send_json ws (System ''Unknown packet type.'') st
          else
     (case py_item packet ''text'' of
        Inl e \<Rightarrow> (Some e, st)
      | Inr tv \<Rightarrow>
     (case chat_text tv of
        Inl e \<Rightarrow> (Some e, st)
      | Inr text \<Rightarrow>
     (case handle_command username text ws st of
        (Inl e, st1) \<Rightarrow> (Some e, st1)
      | (Inr True, st1) \<Rightarrow>
          (let users = dict_keys (clients st1) in
           (None, broadcast_packet (Users users) None st1))
      | (Inr False, st1) \<Rightarrow>
          (let out = Chat username text (now_ts st1) in
           (None, broadcast_packet out None st1)))))))"

text \<open>The \<open>finally\<close> block.\<close>

definition handler_finally :: "string \<Rightarrow> ws \<Rightarrow> world \<Rightarrow> world" where
  "handler_finally username ws st =
     (let st1 = (if dict_in username (clients st) \<and> dict_get (clients st) username = Some ws
                 then st\<lparr>clients := dict_del (clients st) username\<rparr> else st);
          st2 = broadcast_packet
                  (System (''*** '' @ username @ '' left the chat ***'')) None st1;
          users = dict_keys (clients st2)
      in broadcast_packet (Users users) None st2)"

text \<open>
  The loop over the frames the peer sends. The iteration ends when the frames are
  exhausted or when the server has closed the handle; \<open>ConnectionClosed\<close> is caught,
  any other exception leaves the handler, and the \<open>finally\<close> block runs in every case.
\<close>

fun handler_loop :: "string \<Rightarrow> ws \<Rightarrow> frame list \<Rightarrow> world \<Rightarrow> exn option \<times> world" where
  "handler_loop username ws [] st = (None, handler_finally username ws st)"
| "handler_loop username ws (incoming # rest) st =
     (if ws \<in> closed st then (None, handler_finally username ws st)
      else (case handler_step username ws incoming st of
              (None, st') \<Rightarrow> handler_loop username ws rest st'
            | (Some e, st') \<Rightarrow>
                (if e = ConnectionClosed then None else Some e,
                 handler_finally username ws st')))"

definition handler :: "ws \<Rightarrow> exn + frame \<Rightarrow> frame list \<Rightarrow> world \<Rightarrow> exn option \<times> world" where
  "handler ws rcv frames st =
     (case handler_auth ws rcv st of
        (Returned, st') \<Rightarrow> (None, st')
      | (Raised e, st') \<Rightarrow> (Some e, st')
      | (Authenticated username, st') \<Rightarrow> handler_loop username ws frames st')"

subsection \<open>Runs and sample rooms\<close>

text \<open>
  A sequence of connection attempts, each one the handshake of a new connection, taken
  one after the other.
\<close>

fun connect_all :: "(ws \<times> (exn + frame)) list \<Rightarrow> world \<Rightarrow> world" where
  "connect_all [] st = st"
| "connect_all ((ws, rcv) # rest) st = connect_all rest (snd (handler_auth ws rcv st))"

text \<open>The frames \<open>{"type": "auth", ...}\<close> and \<open>{"type": "chat", ...}\<close> of a well-behaved client.\<close>

definition auth_frame :: "string \<Rightarrow> string \<Rightarrow> frame" where
  "auth_frame u p = Doc (JObj [(''type'', JStr ''auth''), (''username'', JStr u), (''password'', JStr p)])"

definition chat_frame :: "string \<Rightarrow> frame" where
  "chat_frame t = Doc (JObj [(''type'', JStr ''chat''), (''text'', JStr t)])"

definition empty_room :: world where
  "empty_room = \<lparr>clients = [], closed = {}, broken = {}, trace = [], clock = ''T''\<rparr>"

definition room3 :: world where
  "room3 = \<lparr>clients = [(''alice'', 11), (''bob'', 12), (''carol'', 13)],
             closed = {}, broken = {}, trace = [], clock = ''T''\<rparr>"

definition room_bob_gone :: world where
  "room_bob_gone = \<lparr>clients = [(''alice'', 11), (''bob'', 12)],
             closed = {}, broken = {12}, trace = [], clock = ''T''\<rparr>"

text \<open>A room with a username that has a space in it, and one with a very long username.\<close>

definition room_spaced :: world where
  "room_spaced = \<lparr>clients = [(''alice'', 11), (''a'', 21), (''a b'', 22)],
             closed = {}, broken = {}, trace = [], clock = ''T''\<rparr>"

definition long_name :: string where
  "long_name = replicate 9990 CHR ''x''"

definition room_long :: world where
  "room_long = \<lparr>clients = [(long_name, 31), (''alice'', 11)],
             closed = {}, broken = {}, trace = [], clock = ''T''\<rparr>"

section \<open>Basic facts\<close>

subsection \<open>Sending and broadcasting\<close>

text \<open>\<open>send_json\<close> swallows every exception of \<open>ws.send\<close>: it records the call and returns.\<close>

lemma send_json_eq:
  "send_json ws obj st = (None, st\<lparr>trace := trace st @ [Send ws obj]\<rparr>)"
  by (simp add: send_json_def ws_send_def)

lemma broadcast_items_eq:
  "broadcast_items p ex items st =
     st\<lparr>trace := trace st @ map (\<lambda>(u, w). Send w p) (filter (\<lambda>(u, w). Some u \<noteq> ex) items)\<rparr>"
proof (induction items arbitrary: st)
  case Nil
  show ?case by simp
next
  case (Cons a items)
  obtain user w where a: "a = (user, w)" by (cases a)
  show ?case
    by (simp add: a send_json_eq Cons.IH)
qed

lemma broadcast_packet_eq:
  "broadcast_packet p ex st =
     st\<lparr>trace := trace st @ map (\<lambda>(u, w). Send w p) (filter (\<lambda>(u, w). Some u \<noteq> ex) (clients st))\<rparr>"
  by (simp add: broadcast_packet_def broadcast_items_eq)

lemma broadcast_all_eq:
  "broadcast_packet p None st = st\<lparr>trace := trace st @ map (\<lambda>(u, w). Send w p) (clients st)\<rparr>"
  by (simp add: broadcast_packet_eq)

lemma broadcast_packet_clients:
  "clients (broadcast_packet p ex st) = clients st"
  by (simp add: broadcast_packet_eq)

lemma reject_eq:
  "reject ws reason st =
     (Returned, st\<lparr>closed := insert ws (closed st),
                   trace := trace st @ [Send ws (AuthFail reason), Close ws]\<rparr>)"
  by (simp add: reject_def send_json_eq ws_close_def)

subsection \<open>The dictionary\<close>

lemma filter_absent_key:
  "\<not> dict_in k d \<Longrightarrow> filter (\<lambda>(u, w). u \<noteq> k) d = d"
  by (induction d) (auto simp: dict_in_def)

lemma filter_new_key:
  "\<not> dict_in k d \<Longrightarrow> filter (\<lambda>(u, w). u \<noteq> k) (d @ [(k, v)]) = d"
  by (simp add: filter_absent_key)

lemma dict_get_in:
  "dict_get d k = Some v \<Longrightarrow> dict_in k d"
  by (auto simp: dict_get_def dict_in_def dest: map_of_SomeD intro: rev_image_eqI)

lemma has_key_of_get:
  "map_of kvs k = Some v \<Longrightarrow> py_has_key (JObj kvs) k"
  by (auto simp: py_has_key_def dest: map_of_SomeD intro: rev_image_eqI)

subsection \<open>Strings\<close>

lemma split_at_space:
  assumes "CHR '' '' \<notin> set B"
  shows "takeWhile (\<lambda>c. c \<noteq> CHR '' '') (B @ CHR '' '' # r) = B"
    and "tl (dropWhile (\<lambda>c. c \<noteq> CHR '' '') (B @ CHR '' '' # r)) = r"
proof -
  have B: "\<And>x. x \<in> set B \<Longrightarrow> x \<noteq> CHR '' ''"
    using assms by auto
  show "takeWhile (\<lambda>c. c \<noteq> CHR '' '') (B @ CHR '' '' # r) = B"
    by (simp add: B)
  show "tl (dropWhile (\<lambda>c. c \<noteq> CHR '' '') (B @ CHR '' '' # r)) = r"
    by (simp add: B)
qed

lemma py_split_2:
  "py_split s sep 2 =
     (if sep \<in> set s
      then takeWhile (\<lambda>c. c \<noteq> sep) s #
             (if sep \<in> set (tl (dropWhile (\<lambda>c. c \<noteq> sep) s))
              then [takeWhile (\<lambda>c. c \<noteq> sep) (tl (dropWhile (\<lambda>c. c \<noteq> sep) s)),
                    tl (dropWhile (\<lambda>c. c \<noteq> sep) (tl (dropWhile (\<lambda>c. c \<noteq> sep) s)))]
              else [tl (dropWhile (\<lambda>c. c \<noteq> sep) s)])
      else [s])"
  by (simp add: numeral_2_eq_2)

text \<open>\<open>/msg\<close> followed by a single word gives two parts.\<close>

lemma split_one_word:
  assumes "CHR '' '' \<notin> set r"
  shows "py_split (''/msg '' @ r) CHR '' '' 2 = [''/msg'', r]"
  using assms by (simp add: py_split_2)

subsection \<open>The commands\<close>

lemma handle_command_handled:
  "fst (handle_command username line ws st) =
     Inr (py_strip line = ''/users'' \<or> py_startswith (py_strip line) ''/msg '' \<or>
          py_strip line = ''/quit'')"
  by (simp add: handle_command_def send_json_eq Let_def split: option.splits)

lemma handle_command_quit:
  assumes "py_strip line = ''/quit''"
  shows "handle_command username line ws st =
           (Inr True, st\<lparr>closed := insert ws (closed st),
              trace := trace st @ [Send ws (System ''Goodbye.''), Close ws]\<rparr>)"
  using assms
  by (simp add: handle_command_def send_json_eq ws_close_def py_startswith_def)

lemma handle_command_usage:
  assumes "py_startswith (py_strip line) ''/msg ''"
    and "length (py_split (py_strip line) CHR '' '' 2) < 3"
  shows "handle_command username line ws st =
           (Inr True, st\<lparr>trace := trace st @ [Send ws (System ''Usage: /msg <user> <message>'')]\<rparr>)"
proof -
  have "py_strip line \<noteq> ''/users''"
    using assms(1) by (auto simp: py_startswith_def)
  then show ?thesis
    using assms by (simp add: handle_command_def send_json_eq)
qed

lemma handle_command_private:
  assumes "py_startswith (py_strip line) ''/msg ''"
    and "py_split (py_strip line) CHR '' '' 2 = [c, to_user, message]"
    and "dict_get (clients st) to_user = Some target"
  shows "handle_command username line ws st =
     (Inr True, st\<lparr>trace := trace st @
         [Send target (Private username message (clock st)),
          Send ws (System ''Private message sent.'')]\<rparr>)"
proof -
  have "py_strip line \<noteq> ''/users''"
    using assms(1) by (auto simp: py_startswith_def)
  then show ?thesis
    using assms by (simp add: handle_command_def send_json_eq now_ts_def)
qed

lemma handle_command_not_found:
  assumes "py_startswith (py_strip line) ''/msg ''"
    and "py_split (py_strip line) CHR '' '' 2 = [c, to_user, message]"
    and "dict_get (clients st) to_user = None"
  shows "handle_command username line ws st =
     (Inr True, st\<lparr>trace := trace st @
         [Send ws (System (''User '' @ [CHR 0x27] @ to_user @ [CHR 0x27] @ '' not found.''))]\<rparr>)"
proof -
  have "py_strip line \<noteq> ''/users''"
    using assms(1) by (auto simp: py_startswith_def)
  then show ?thesis
    using assms by (simp add: handle_command_def send_json_eq)
qed

text \<open>A chat packet with a string under \<open>text\<close> reaches \<open>handle_command\<close>.\<close>

lemma handler_step_chat:
  assumes "map_of kvs ''type'' = Some (JStr ''chat'')"
    and "map_of kvs ''text'' = Some (JStr t)"
  shows "handler_step username ws (Doc (JObj kvs)) st =
     (case handle_command username (take MAX_MSG t) ws st of
        (Inl e, st1) \<Rightarrow> (Some e, st1)
      | (Inr True, st1) \<Rightarrow>
          (None, st1\<lparr>trace := trace st1 @
             map (\<lambda>(u, w). Send w (Users (dict_keys (clients st1)))) (clients st1)\<rparr>)
      | (Inr False, st1) \<Rightarrow>
          (None, st1\<lparr>trace := trace st1 @
             map (\<lambda>(u, w). Send w (Chat username (take MAX_MSG t) (clock st1))) (clients st1)\<rparr>))"
  using assms has_key_of_get [OF assms(2)]
  by (simp add: handler_step_def json_loads_def py_get_def py_item_def chat_text_def
      broadcast_all_eq now_ts_def Let_def split: prod.splits sum.splits bool.splits)

text \<open>
  A name with a space in it, \<open>p\<close> up to its first space and \<open>q\<close> after it, cannot be
  addressed: \<open>/msg p q hello\<close> is split into the target \<open>p\<close> and the message \<open>q hello\<close>.
\<close>

lemma msg_name_with_space:
  assumes "map_of kvs ''type'' = Some (JStr ''chat'')"
    and "map_of kvs ''text'' = Some (JStr (''/msg '' @ (p @ '' '' @ q) @ '' hello''))"
    and "CHR '' '' \<notin> set p" and "length (p @ '' '' @ q) + 11 \<le> MAX_MSG"
  shows "handler_step A wa (Doc (JObj kvs)) st =
     (None, st\<lparr>trace := trace st @
         (case dict_get (clients st) p of
            None \<Rightarrow> [Send wa (System (''User '' @ [CHR 0x27] @ p @ [CHR 0x27] @ '' not found.''))]
          | Some target \<Rightarrow>
              [Send target (Private A (q @ '' hello'') (clock st)),
               Send wa (System ''Private message sent.'')]) @
         map (\<lambda>(u, w). Send w (Users (dict_keys (clients st)))) (clients st)\<rparr>)"
proof -
  define line where "line = ''/msg '' @ (p @ '' '' @ q) @ '' hello''"
  have t: "take MAX_MSG line = line"
    using assms(4) by (simp add: line_def)
  have s: "py_strip line = line"
    by (simp add: line_def py_strip_def py_isspace_def)
  have m: "py_startswith line ''/msg ''"
    by (simp add: line_def py_startswith_def)
  have sp: "py_split line CHR '' '' 2 = [''/msg'', p, q @ '' hello'']"
    using split_at_space [OF assms(3), of "q @ '' hello''"]
    by (simp add: line_def numeral_2_eq_2)
  show ?thesis
  proof (cases "dict_get (clients st) p")
    case None
    have "handle_command A line wa st =
       (Inr True, st\<lparr>trace := trace st @
         [Send wa (System (''User '' @ [CHR 0x27] @ p @ [CHR 0x27] @ '' not found.''))]\<rparr>)"
      using m sp None by (simp add: handle_command_not_found s)
    then show ?thesis
      using handler_step_chat [OF assms(1) assms(2), of A wa st] None
      unfolding line_def [symmetric]
      by (simp add: t)
  next
    case (Some target)
    have "handle_command A line wa st =
       (Inr True, st\<lparr>trace := trace st @
         [Send target (Private A (q @ '' hello'') (clock st)),
          Send wa (System ''Private message sent.'')]\<rparr>)"
      using m sp Some by (simp add: handle_command_private s)
    then show ?thesis
      using handler_step_chat [OF assms(1) assms(2), of A wa st] Some
      unfolding line_def [symmetric]
      by (simp add: t)
  qed
qed

text \<open>
  The frames the loop does answer: one that is not JSON, and a packet whose \<open>type\<close> is
  not \<open>chat\<close> or that has no \<open>text\<close>. The sender gets a \<open>system\<close> reply, nothing else
  changes and the loop goes on.
\<close>

lemma handler_step_garbage:
  "handler_step username ws Garbage st =
     (None, st\<lparr>trace := trace st @ [Send ws (System ''Malformed packet (expecting JSON).'')]\<rparr>)"
  by (simp add: handler_step_def json_loads_def send_json_eq)

lemma handler_step_unknown:
  assumes "map_of kvs ''type'' \<noteq> Some (JStr ''chat'') \<or> map_of kvs ''text'' = None"
  shows "handler_step username ws (Doc (JObj kvs)) st =
     (None, st\<lparr>trace := trace st @ [Send ws (System ''Unknown packet type.'')]\<rparr>)"
proof -
  have "map_of kvs ''text'' = None \<Longrightarrow> \<not> py_has_key (JObj kvs) ''text''"
    by (simp add: py_has_key_def map_of_eq_None_iff)
  then show ?thesis
    using assms
    by (auto simp: handler_step_def json_loads_def py_get_def send_json_eq)
qed

text \<open>A frame that is JSON but no object ends the pass with \<open>AttributeError\<close>.\<close>

lemma handler_step_not_object:
  assumes "\<And>kvs. j \<noteq> JObj kvs"
  shows "handler_step username ws (Doc j) st = (Some AttributeError, st)"
proof (cases j)
  case (JObj kvs)
  with assms show ?thesis by blast
qed (simp_all add: handler_step_def json_loads_def py_get_def)

text \<open>Once the server has closed the handle, the loop reads no further frame.\<close>

lemma handler_loop_closed:
  "ws \<in> closed st \<Longrightarrow>
   handler_loop username ws frames st = (None, handler_finally username ws st)"
  by (cases frames) simp_all

subsection \<open>The handshake and the registry\<close>

lemma handle_command_clients:
  "clients (snd (handle_command username line ws st)) = clients st"
  by (simp add: handle_command_def send_json_eq ws_close_def Let_def split: option.splits)

lemma handler_auth_clients:
  "clients (snd (handler_auth ws rcv st)) = clients st \<or>
   (\<exists>u. \<not> dict_in u (clients st) \<and>
        clients (snd (handler_auth ws rcv st)) = clients st @ [(u, ws)])"
  by (auto simp: handler_auth_def reject_eq send_json_eq broadcast_packet_eq dict_set_def Let_def
      split: sum.splits bool.splits)

lemma handler_auth_distinct:
  "distinct (dict_keys (clients st)) \<Longrightarrow>
   distinct (dict_keys (clients (snd (handler_auth ws rcv st))))"
  using handler_auth_clients [of ws rcv st]
  by (auto simp: dict_keys_def dict_in_def)

lemma connect_all_distinct:
  "distinct (dict_keys (clients st)) \<Longrightarrow>
   distinct (dict_keys (clients (connect_all attempts st)))"
proof (induction attempts arbitrary: st)
  case Nil
  then show ?case by simp
next
  case (Cons a attempts)
  obtain ws rcv where a: "a = (ws, rcv)" by (cases a)
  from Cons.prems have "distinct (dict_keys (clients (snd (handler_auth ws rcv st))))"
    by (rule handler_auth_distinct)
  then show ?case
    by (simp add: a Cons.IH)
qed

lemma handler_auth_taken:
  assumes "map_of kvs ''type'' = Some (JStr ''auth'')"
    and "map_of kvs ''username'' = Some (JStr u)" and "u \<noteq> []"
    and "map_of kvs ''password'' = Some (JStr CHAT_PASSWORD)"
    and "dict_in (py_strip u) (clients st)"
  shows "handler_auth ws (Inr (Doc (JObj kvs))) st =
           (Returned, st\<lparr>closed := insert ws (closed st),
              trace := trace st @ [Send ws (AuthFail ''Username already taken''), Close ws]\<rparr>)"
  using assms
  by (simp add: handler_auth_def json_loads_def auth_required_def py_get_def py_item_def
      py_strip_value_def reject_eq CHAT_PASSWORD_def)

text \<open>
  The key under which the handshake registers: the stripped form of the string sent as
  \<open>username\<close>, which was not empty before it was stripped.
\<close>

lemma handler_auth_key:
  assumes "handler_auth ws (Inr (Doc (JObj kvs))) st = (Authenticated username, st')"
  shows "\<exists>u. map_of kvs ''username'' = Some (JStr u) \<and> u \<noteq> [] \<and> username = py_strip u"
proof -
  from assms have req: "auth_required (JObj kvs) = Inr False"
    by (auto simp: handler_auth_def json_loads_def reject_eq split: sum.splits bool.splits)
  then obtain uv where uv: "map_of kvs ''username'' = Some uv" and truthy: "py_truthy (Some uv)"
    by (cases "map_of kvs ''username''")
      (auto simp: auth_required_def py_get_def split: if_splits)
  from assms req uv obtain u where "uv = JStr u" and "username = py_strip u"
    by (cases uv)
      (auto simp: handler_auth_def json_loads_def py_item_def py_strip_value_def reject_eq
        send_json_eq Let_def split: sum.splits if_splits)
  with uv truthy show ?thesis by auto
qed

text \<open>Evaluating the handshake of a well-formed frame on a concrete room.\<close>

lemmas handshake_eval =
  handler_auth_def auth_frame_def json_loads_def auth_required_def py_get_def py_item_def
  py_strip_value_def py_strip_def py_isspace_def CHAT_PASSWORD_def reject_eq send_json_eq
  broadcast_packet_eq dict_in_def dict_set_def dict_keys_def

text \<open>Evaluating one pass of the receive loop on a concrete room.\<close>

lemmas step_eval =
  handler_step_def chat_frame_def json_loads_def py_get_def py_has_key_def py_item_def
  chat_text_def MAX_MSG_def handle_command_def py_strip_def py_isspace_def py_startswith_def
  py_split_2 dict_get_def dict_keys_def now_ts_def send_json_eq ws_close_def broadcast_all_eq

text \<open>
  Two passes of the loop: \<open>/msg a b hello\<close> where both \<open>a\<close> and \<open>a b\<close> are registered, and
  \<open>/msg\<close> to a name so long that the text is cut before its last character.
\<close>

lemma long_cut:
  "take MAX_MSG (''/msg '' @ long_name @ '' hello'') = ''/msg '' @ long_name @ '' hell''"
  by (simp add: MAX_MSG_def long_name_def)

lemma long_step:
  "handler_step ''alice'' 11 (chat_frame (''/msg '' @ long_name @ '' hello'')) room_long =
     (None, room_long\<lparr>trace :=
        [Send 31 (Private ''alice'' ''hell'' ''T''),
         Send 11 (System ''Private message sent.''),
         Send 31 (Users [long_name, ''alice'']),
         Send 11 (Users [long_name, ''alice''])]\<rparr>)"
proof -
  define line where "line = ''/msg '' @ long_name @ '' hell''"
  have ns: "CHR '' '' \<notin> set long_name"
    by (simp add: long_name_def)
  have s: "py_strip line = line"
    by (simp add: line_def py_strip_def py_isspace_def)
  have m: "py_startswith line ''/msg ''"
    by (simp add: line_def py_startswith_def)
  have sp: "py_split line CHR '' '' 2 = [''/msg'', long_name, ''hell'']"
    using split_at_space [OF ns, of "''hell''"]
    by (simp add: line_def numeral_2_eq_2)
  have g: "dict_get (clients room_long) long_name = Some 31"
    by (simp add: room_long_def dict_get_def)
  have c: "handle_command ''alice'' line 11 room_long =
     (Inr True, room_long\<lparr>trace := trace room_long @
         [Send 31 (Private ''alice'' ''hell'' (clock room_long)),
          Send 11 (System ''Private message sent.'')]\<rparr>)"
    using m sp g by (simp add: handle_command_private s)
  have cl: "clients room_long = [(long_name, 31), (''alice'', 11)]"
    and tr: "trace room_long = []" and ck: "clock room_long = ''T''"
    by (simp_all add: room_long_def)
  show ?thesis
    using handler_step_chat [of "[(''type'', JStr ''chat''), (''text'', JStr (''/msg '' @ long_name @ '' hello''))]"
        "''/msg '' @ long_name @ '' hello''" "''alice''" 11 room_long]
    unfolding long_cut line_def [symmetric]
    by (simp add: c cl tr ck chat_frame_def dict_keys_def)
qed

lemma spaced_step:
  "handler_step ''alice'' 11 (chat_frame ''/msg a b hello'') room_spaced =
     (None, room_spaced\<lparr>trace :=
        [Send 21 (Private ''alice'' ''b hello'' ''T''),
         Send 11 (System ''Private message sent.''),
         Send 11 (Users [''alice'', ''a'', ''a b'']),
         Send 21 (Users [''alice'', ''a'', ''a b'']),
         Send 22 (Users [''alice'', ''a'', ''a b''])]\<rparr>)"
  by (simp add: step_eval room_spaced_def)

section \<open>The claims\<close>

text \<open>
  C1, registry uniqueness. Starting from a registry with pairwise different usernames,
  after any sequence of connection attempts the usernames in the registry are still
  pairwise different. A further attempt that carries the room password and a username
  which (stripped) is already registered is answered with the single packet
  \<open>auth_fail\<close> "Username already taken", its connection is closed, and nothing else in
  the world changes: the registry, and so the holder's entry, is as before.
\<close>

theorem registry_uniqueness:
  assumes "distinct (dict_keys (clients st0))"
  shows "distinct (dict_keys (clients (connect_all attempts st0))) \<and>
    (map_of kvs ''type'' = Some (JStr ''auth'') \<and>
     map_of kvs ''username'' = Some (JStr u) \<and> u \<noteq> [] \<and>
     map_of kvs ''password'' = Some (JStr CHAT_PASSWORD) \<and>
     dict_in (py_strip u) (clients (connect_all attempts st0)) \<longrightarrow>
     handler_auth ws (Inr (Doc (JObj kvs))) (connect_all attempts st0) =
       (Returned, (connect_all attempts st0)
          \<lparr>closed := insert ws (closed (connect_all attempts st0)),
           trace := trace (connect_all attempts st0) @
             [Send ws (AuthFail ''Username already taken''), Close ws]\<rparr>))"
  using assms
  by (simp add: connect_all_distinct handler_auth_taken)

theorem registry_uniqueness_witness:
  "distinct (dict_keys (clients empty_room)) \<and>
   dict_in (py_strip ''alice '') (clients (connect_all [(11, Inr (auth_frame ''alice'' ''letmein''))] empty_room)) \<and>
   distinct (dict_keys (clients (connect_all [(11, Inr (auth_frame ''alice'' ''letmein''))] empty_room))) \<and>
   handler_auth 12 (Inr (auth_frame ''alice '' ''letmein''))
       (connect_all [(11, Inr (auth_frame ''alice'' ''letmein''))] empty_room) =
     (Returned,
      \<lparr>clients = [(''alice'', 11)], closed = {12}, broken = {},
       trace = [Send 11 AuthOk, Send 11 (Users [''alice'']),
                Send 12 (AuthFail ''Username already taken''), Close 12],
       clock = ''T''\<rparr>)"
proof -
  have run: "connect_all [(11, Inr (auth_frame ''alice'' ''letmein''))] empty_room =
      \<lparr>clients = [(''alice'', 11)], closed = {}, broken = {},
       trace = [Send 11 AuthOk, Send 11 (Users [''alice''])], clock = ''T''\<rparr>"
    by (simp add: handshake_eval empty_room_def)
  have d: "distinct (dict_keys (clients empty_room))"
    by (simp add: empty_room_def dict_keys_def)
  have s: "py_strip ''alice '' = ''alice''"
    by (simp add: py_strip_def py_isspace_def)
  note inst = registry_uniqueness [OF d,
        where kvs = "[(''type'', JStr ''auth''), (''username'', JStr ''alice ''), (''password'', JStr ''letmein'')]"
          and u = "''alice ''" and attempts = "[(11, Inr (auth_frame ''alice'' ''letmein''))]"
          and ws = 12]
  show ?thesis
    unfolding run
    using inst [unfolded run] d
    by (simp add: s auth_frame_def CHAT_PASSWORD_def dict_in_def dict_keys_def)
qed

text \<open>
  C2, prune on send failure. The claim asks that a registry entry whose send fails
  during a broadcast is removed in the same pass. The \<open>except\<close> branch of
  \<open>broadcast_packet\<close> that deletes the entry can never run, because \<open>send_json\<close> has
  already swallowed the exception. In a room where bob's handle is broken, \<open>ws.send\<close>
  to it raises, and after the broadcast bob is still registered.
\<close>

theorem broadcast_keeps_failed_handle:
  "fst (ws_send 12 (System ''hi'') room_bob_gone) = Some ConnectionClosed \<and>
   clients (broadcast_packet (System ''hi'') None room_bob_gone) =
     [(''alice'', 11), (''bob'', 12)]"
  by (simp add: ws_send_def room_bob_gone_def broadcast_packet_clients)

text \<open>
  C3, private delivery isolation, as stated: for every registered target B, after
  \<open>/msg B hello\<close> from A only B receives the private message \<open>hello\<close>, A receives only
  the acknowledgment and nobody else receives anything. This fails in three ways. The
  handler follows every handled command with a \<open>users\<close> broadcast, so in a room with
  alice, bob and carol, carol's handle is sent a \<open>users\<close> packet, and so is alice's.
  A registered name with a space in it is not reached: with \<open>a\<close> and \<open>a b\<close> registered,
  \<open>/msg a b hello\<close> sends the private message \<open>b hello\<close> to \<open>a\<close>. And the text is cut to
  \<open>MAX_MSG\<close> characters first: a registered name of 9990 characters receives \<open>hell\<close>.
\<close>

theorem private_isolation_counterexample:
  "Send 13 (Users [''alice'', ''bob'', ''carol''])
     \<in> set (trace (snd (handler_step ''alice'' 11 (chat_frame ''/msg bob hello'') room3))) \<and>
   Send 11 (Users [''alice'', ''bob'', ''carol''])
     \<in> set (trace (snd (handler_step ''alice'' 11 (chat_frame ''/msg bob hello'') room3))) \<and>
   handler_step ''alice'' 11 (chat_frame ''/msg a b hello'') room_spaced =
     (None, room_spaced\<lparr>trace :=
        [Send 21 (Private ''alice'' ''b hello'' ''T''),
         Send 11 (System ''Private message sent.''),
         Send 11 (Users [''alice'', ''a'', ''a b'']),
         Send 21 (Users [''alice'', ''a'', ''a b'']),
         Send 22 (Users [''alice'', ''a'', ''a b''])]\<rparr>) \<and>
   handler_step ''alice'' 11 (chat_frame (''/msg '' @ long_name @ '' hello'')) room_long =
     (None, room_long\<lparr>trace :=
        [Send 31 (Private ''alice'' ''hell'' ''T''),
         Send 11 (System ''Private message sent.''),
         Send 31 (Users [long_name, ''alice'']),
         Send 11 (Users [long_name, ''alice''])]\<rparr>)"
proof -
  have "Send 13 (Users [''alice'', ''bob'', ''carol''])
     \<in> set (trace (snd (handler_step ''alice'' 11 (chat_frame ''/msg bob hello'') room3)))"
    and "Send 11 (Users [''alice'', ''bob'', ''carol''])
     \<in> set (trace (snd (handler_step ''alice'' 11 (chat_frame ''/msg bob hello'') room3)))"
    by (simp_all add: step_eval room3_def)
  then show ?thesis
    using spaced_step long_step by blast
qed

text \<open>
  C3, amended. Let B be a registered username without a space in it, short enough for
  \<open>/msg B hello\<close> to fit into \<open>MAX_MSG\<close> characters. When the session of A (on handle
  \<open>wa\<close>) receives the chat text \<open>/msg B hello\<close>, the server sends, in this order: one
  \<open>private\<close> packet from A with text \<open>hello\<close> to B's handle, the \<open>system\<close> packet
  "Private message sent." to A's handle, and then one \<open>users\<close> snapshot to every
  registered handle. Nothing else is sent, no \<open>chat\<close> packet in particular, and the
  registry does not change.
\<close>

theorem private_delivery:
  assumes "map_of kvs ''type'' = Some (JStr ''chat'')"
    and "map_of kvs ''text'' = Some (JStr (''/msg '' @ B @ '' hello''))"
    and "CHR '' '' \<notin> set B" and "length B + 11 \<le> MAX_MSG"
    and "dict_get (clients st) B = Some wb"
  shows "handler_step A wa (Doc (JObj kvs)) st =
     (None, st\<lparr>trace := trace st @
         [Send wb (Private A ''hello'' (clock st)), Send wa (System ''Private message sent.'')] @
         map (\<lambda>(u, w). Send w (Users (dict_keys (clients st)))) (clients st)\<rparr>)"
proof -
  define line where "line = ''/msg '' @ B @ '' hello''"
  have t: "take MAX_MSG line = line"
    using assms(4) by (simp add: line_def)
  have s: "py_strip line = line"
    by (simp add: line_def py_strip_def py_isspace_def)
  have u: "line \<noteq> ''/users''" and m: "py_startswith line ''/msg ''"
    by (simp_all add: line_def py_startswith_def)
  have p: "py_split line CHR '' '' 2 = [''/msg'', B, ''hello'']"
    using split_at_space [OF assms(3), of "''hello''"]
    by (simp add: line_def numeral_2_eq_2)
  have c: "handle_command A line wa st =
     (Inr True, st\<lparr>trace := trace st @
         [Send wb (Private A ''hello'' (clock st)), Send wa (System ''Private message sent.'')]\<rparr>)"
    using assms(5) u m
    by (simp add: handle_command_def s p send_json_eq now_ts_def)
  show ?thesis
    using handler_step_chat [OF assms(1) assms(2), of A wa st]
    unfolding line_def [symmetric]
    by (simp add: t c)
qed

theorem private_delivery_witness:
  "CHR '' '' \<notin> set ''bob'' \<and> length ''bob'' + 11 \<le> MAX_MSG \<and>
   dict_get (clients room3) ''bob'' = Some 12 \<and>
   handler_step ''alice'' 11 (chat_frame (''/msg '' @ ''bob'' @ '' hello'')) room3 =
     (None, room3\<lparr>trace :=
         [Send 12 (Private ''alice'' ''hello'' ''T''), Send 11 (System ''Private message sent.''),
          Send 11 (Users [''alice'', ''bob'', ''carol'']),
          Send 12 (Users [''alice'', ''bob'', ''carol'']),
          Send 13 (Users [''alice'', ''bob'', ''carol''])]\<rparr>)"
  using private_delivery [where B = "''bob''" and st = room3 and wb = 12 and A = "''alice''"
      and wa = 11 and kvs = "[(''type'', JStr ''chat''), (''text'', JStr (''/msg '' @ ''bob'' @ '' hello''))]"]
  by (simp add: chat_frame_def room3_def dict_get_def dict_keys_def MAX_MSG_def)

text \<open>
  C4, users refresh after every command. For a chat packet whose stripped text (cut to
  \<open>MAX_MSG\<close> characters) is \<open>/users\<close>, starts with \<open>/msg\<close> and a space, or is \<open>/quit\<close>,
  \<open>handle_command\<close> returns true, whatever reply it gave, and leaves the registry as
  it was; the handler then sends one \<open>users\<close> snapshot of that registry to every
  registered handle and goes on with the loop.
\<close>

theorem users_refresh_after_command:
  assumes "map_of kvs ''type'' = Some (JStr ''chat'')"
    and "map_of kvs ''text'' = Some (JStr t)"
    and "py_strip (take MAX_MSG t) = ''/users'' \<or>
         py_startswith (py_strip (take MAX_MSG t)) ''/msg '' \<or>
         py_strip (take MAX_MSG t) = ''/quit''"
    and "st1 = snd (handle_command username (take MAX_MSG t) ws st)"
  shows "fst (handle_command username (take MAX_MSG t) ws st) = Inr True \<and>
         clients st1 = clients st \<and>
         handler_step username ws (Doc (JObj kvs)) st =
           (None, st1\<lparr>trace := trace st1 @
              map (\<lambda>(u, w). Send w (Users (dict_keys (clients st)))) (clients st)\<rparr>)"
proof -
  have h: "fst (handle_command username (take MAX_MSG t) ws st) = Inr True"
    using assms(3) by (simp add: handle_command_handled)
  have c: "clients st1 = clients st"
    by (simp add: assms(4) handle_command_clients)
  have "handle_command username (take MAX_MSG t) ws st = (Inr True, st1)"
    using h assms(4) by (simp add: prod_eq_iff)
  then have "handler_step username ws (Doc (JObj kvs)) st =
           (None, st1\<lparr>trace := trace st1 @
              map (\<lambda>(u, w). Send w (Users (dict_keys (clients st)))) (clients st)\<rparr>)"
    using handler_step_chat [OF assms(1) assms(2), of username ws st] c by simp
  with h c show ?thesis by simp
qed

theorem users_refresh_after_command_witness:
  "py_strip (take MAX_MSG ''/users'') = ''/users'' \<and>
   fst (handle_command ''alice'' (take MAX_MSG ''/users'') 11 room3) = Inr True \<and>
   handler_step ''alice'' 11 (chat_frame ''/users'') room3 =
     (None, room3\<lparr>trace :=
         [Send 11 (Users [''alice'', ''bob'', ''carol'']),
          Send 11 (Users [''alice'', ''bob'', ''carol'']),
          Send 12 (Users [''alice'', ''bob'', ''carol'']),
          Send 13 (Users [''alice'', ''bob'', ''carol''])]\<rparr>)"
proof -
  have s: "py_strip (take MAX_MSG ''/users'') = ''/users''"
    by (simp add: MAX_MSG_def py_strip_def py_isspace_def)
  have e: "snd (handle_command ''alice'' (take MAX_MSG ''/users'') 11 room3) =
      room3\<lparr>trace := [Send 11 (Users [''alice'', ''bob'', ''carol''])]\<rparr>"
    by (simp add: handle_command_def s send_json_eq room3_def dict_keys_def)
  have cl: "clients room3 = [(''alice'', 11), (''bob'', 12), (''carol'', 13)]"
    by (simp add: room3_def)
  show ?thesis
    using users_refresh_after_command [where kvs = "[(''type'', JStr ''chat''), (''text'', JStr ''/users'')]"
        and t = "''/users''" and username = "''alice''" and ws = 11 and st = room3, OF _ _ _ refl]
    by (simp add: s e cl chat_frame_def dict_keys_def)
qed

text \<open>
  C5, recoverable packet errors. The claim asks that a frame which is not a well-formed
  chat packet, ill-typed fields included, is answered with a \<open>system\<close> reply while the
  session goes on and the registry stays as it is. The loop answers a frame that is not
  JSON and a packet with a wrong \<open>type\<close> or without \<open>text\<close>, but it slices \<open>text\<close>
  unchecked: on \<open>{"type": "chat", "text": 5}\<close> the slice raises \<open>TypeError\<close>, alice is
  sent no reply, the \<open>finally\<close> block deregisters her and announces that she left, and
  the exception ends the handler.
\<close>

theorem ill_typed_text_ends_session:
  "handler_loop ''alice'' 11 [Doc (JObj [(''type'', JStr ''chat''), (''text'', JInt 5)])] room3 =
     (Some TypeError,
      \<lparr>clients = [(''bob'', 12), (''carol'', 13)], closed = {}, broken = {},
       trace = [Send 12 (System ''*** alice left the chat ***''),
                Send 13 (System ''*** alice left the chat ***''),
                Send 12 (Users [''bob'', ''carol'']),
                Send 13 (Users [''bob'', ''carol''])],
       clock = ''T''\<rparr>)"
  by (simp add: step_eval handler_finally_def dict_in_def dict_del_def room3_def)

text \<open>
  C6, non-empty trimmed usernames. The claim asks that no registry key is empty and that
  a username which is empty after trimming is never registered. The handshake tests the
  username for emptiness before it strips it: the username \<open>" "\<close> passes the test, is
  stripped to the empty string and is registered under that key.
\<close>

theorem blank_username_registered:
  "handler_auth 14 (Inr (auth_frame '' '' ''letmein'')) room3 =
     (Authenticated [],
      \<lparr>clients = [(''alice'', 11), (''bob'', 12), (''carol'', 13), ([], 14)],
       closed = {}, broken = {},
       trace = [Send 14 AuthOk,
                Send 11 (System ''***  joined the chat ***''),
                Send 12 (System ''***  joined the chat ***''),
                Send 13 (System ''***  joined the chat ***''),
                Send 11 (Users [''alice'', ''bob'', ''carol'', []]),
                Send 12 (Users [''alice'', ''bob'', ''carol'', []]),
                Send 13 (Users [''alice'', ''bob'', ''carol'', []]),
                Send 14 (Users [''alice'', ''bob'', ''carol'', []])],
       clock = ''T''\<rparr>)"
  by (simp add: handshake_eval room3_def)

text \<open>
  The usage reply of \<open>/msg\<close>. When the stripped text of a chat packet (cut to \<open>MAX_MSG\<close>
  characters) starts with \<open>/msg\<close> and a space, and splitting it at most twice at single
  spaces gives fewer than three parts (as for \<open>/msg bob\<close>), the server sends the sender
  one \<open>system\<close> packet "Usage: /msg <user> <message>", followed by the \<open>users\<close> snapshot
  to every registered handle, and nothing else.
\<close>

lemma msg_usage:
  assumes "map_of kvs ''type'' = Some (JStr ''chat'')"
    and "map_of kvs ''text'' = Some (JStr t)"
    and "py_startswith (py_strip (take MAX_MSG t)) ''/msg ''"
    and "length (py_split (py_strip (take MAX_MSG t)) CHR '' '' 2) < 3"
  shows "handler_step username ws (Doc (JObj kvs)) st =
     (None, st\<lparr>trace := trace st @
         [Send ws (System ''Usage: /msg <user> <message>'')] @
         map (\<lambda>(u, w). Send w (Users (dict_keys (clients st)))) (clients st)\<rparr>)"
  using handler_step_chat [OF assms(1) assms(2), of username ws st]
  by (simp add: handle_command_usage [OF assms(3) assms(4)])

lemma msg_usage_example:
  "py_startswith (py_strip (take MAX_MSG ''/msg bob'')) ''/msg '' \<and>
   length (py_split (py_strip (take MAX_MSG ''/msg bob'')) CHR '' '' 2) < 3 \<and>
   handler_step ''alice'' 11 (chat_frame ''/msg bob'') room3 =
     (None, room3\<lparr>trace :=
        [Send 11 (System ''Usage: /msg <user> <message>''),
         Send 11 (Users [''alice'', ''bob'', ''carol'']),
         Send 12 (Users [''alice'', ''bob'', ''carol'']),
         Send 13 (Users [''alice'', ''bob'', ''carol''])]\<rparr>)"
proof -
  have s: "py_strip (take MAX_MSG ''/msg bob'') = ''/msg bob''"
    by (simp add: MAX_MSG_def py_strip_def py_isspace_def)
  have a: "py_startswith ''/msg bob'' ''/msg ''"
    by (simp add: py_startswith_def)
  have b: "length (py_split ''/msg bob'' CHR '' '' 2) < 3"
    by (simp add: py_split_2)
  have cl: "clients room3 = [(''alice'', 11), (''bob'', 12), (''carol'', 13)]"
    and tr: "trace room3 = []"
    by (simp_all add: room3_def)
  show ?thesis
    using msg_usage [where kvs = "[(''type'', JStr ''chat''), (''text'', JStr ''/msg bob'')]"
        and t = "''/msg bob''" and username = "''alice''" and ws = 11 and st = room3]
    by (simp add: s a b cl tr chat_frame_def dict_keys_def)
qed

text \<open>
  C7, the usage error of \<open>/msg\<close>. The claim asks that a \<open>/msg\<close> with fewer than three
  tokens, \<open>/msg\<close> alone included, is answered with the usage reply and that no \<open>chat\<close>
  packet goes out. \<open>handle_command\<close> has the check for it (\<open>len(parts) < 3\<close>), and
  \<open>/msg bob\<close> does get the usage reply, but the check sits behind the test that the
  stripped text starts with \<open>/msg\<close> and a space. \<open>/msg\<close> alone does not pass that test,
  so \<open>handle_command\<close> returns false and the handler broadcasts \<open>/msg\<close> to the whole
  room as chat; alice gets no usage reply.
\<close>

theorem bare_msg_broadcast_as_chat:
  "handle_command ''alice'' ''/msg'' 11 room3 = (Inr False, room3) \<and>
   handler_step ''alice'' 11 (chat_frame ''/msg'') room3 =
     (None, room3\<lparr>trace :=
        [Send 11 (Chat ''alice'' ''/msg'' ''T''),
         Send 12 (Chat ''alice'' ''/msg'' ''T''),
         Send 13 (Chat ''alice'' ''/msg'' ''T'')]\<rparr>)"
  by (simp add: step_eval room3_def)

text \<open>
  C8, join notification order. Whenever the handshake of a connection ends with the
  user authenticated, the username was free, the registry is the old one with the
  joiner appended, and the server has sent, in this order: \<open>auth_ok\<close> to the joiner's
  handle; the \<open>system\<close> join notice to the handle of every registered user other than the
  joiner; the \<open>users\<close> snapshot of the new registry, which lists the joiner, to the handle
  of every registered user, the joiner included.
\<close>

theorem join_notification_order:
  assumes "handler_auth ws rcv st = (Authenticated username, st')"
  shows "\<not> dict_in username (clients st) \<and>
         clients st' = clients st @ [(username, ws)] \<and>
         username \<in> set (dict_keys (clients st')) \<and>
         trace st' = trace st @ [Send ws AuthOk] @
           map (\<lambda>(u, w). Send w (System (''*** '' @ username @ '' joined the chat ***'')))
             (filter (\<lambda>(u, w). u \<noteq> username) (clients st')) @
           map (\<lambda>(u, w). Send w (Users (dict_keys (clients st')))) (clients st')"
  using assms
  by (auto simp: handler_auth_def reject_eq send_json_eq broadcast_packet_eq dict_set_def
      dict_keys_def filter_absent_key Let_def
      split: sum.splits bool.splits if_splits)

theorem join_notification_order_witness:
  "handler_auth 14 (Inr (auth_frame ''dave'' ''letmein'')) room3 =
     (Authenticated ''dave'',
      \<lparr>clients = [(''alice'', 11), (''bob'', 12), (''carol'', 13), (''dave'', 14)],
       closed = {}, broken = {},
       trace = [Send 14 AuthOk,
                Send 11 (System ''*** dave joined the chat ***''),
                Send 12 (System ''*** dave joined the chat ***''),
                Send 13 (System ''*** dave joined the chat ***''),
                Send 11 (Users [''alice'', ''bob'', ''carol'', ''dave'']),
                Send 12 (Users [''alice'', ''bob'', ''carol'', ''dave'']),
                Send 13 (Users [''alice'', ''bob'', ''carol'', ''dave'']),
                Send 14 (Users [''alice'', ''bob'', ''carol'', ''dave''])],
       clock = ''T''\<rparr>) \<and>
   \<not> dict_in ''dave'' (clients room3) \<and>
   ''dave'' \<in> set (dict_keys [(''alice'', 11), (''bob'', 12), (''carol'', 13), (''dave'', 14)])"
proof -
  have e: "handler_auth 14 (Inr (auth_frame ''dave'' ''letmein'')) room3 =
     (Authenticated ''dave'',
      \<lparr>clients = [(''alice'', 11), (''bob'', 12), (''carol'', 13), (''dave'', 14)],
       closed = {}, broken = {},
       trace = [Send 14 AuthOk,
                Send 11 (System ''*** dave joined the chat ***''),
                Send 12 (System ''*** dave joined the chat ***''),
                Send 13 (System ''*** dave joined the chat ***''),
                Send 11 (Users [''alice'', ''bob'', ''carol'', ''dave'']),
                Send 12 (Users [''alice'', ''bob'', ''carol'', ''dave'']),
                Send 13 (Users [''alice'', ''bob'', ''carol'', ''dave'']),
                Send 14 (Users [''alice'', ''bob'', ''carol'', ''dave''])],
       clock = ''T''\<rparr>)"
    by (simp add: handshake_eval room3_def)
  show ?thesis
    using join_notification_order [OF e] e
    by simp
qed

text \<open>
  C9, auth timeout. When the wait for the first message ends with \<open>TimeoutError\<close>, the
  handler sends the connection exactly one packet, \<open>auth_fail\<close> "No auth received",
  closes it and returns: the registry is untouched and the receive loop is never
  entered, whatever the peer sends afterwards.
\<close>

theorem auth_timeout:
  "handler ws (Inl TimeoutError) frames st =
     (None, st\<lparr>closed := insert ws (closed st),
               trace := trace st @ [Send ws (AuthFail ''No auth received''), Close ws]\<rparr>)"
  by (simp add: handler_def handler_auth_def reject_eq)

text \<open>
  C10, stale users list after \<open>/quit\<close>. Let the user be registered under the handle of
  an open connection and let its next chat text be \<open>/quit\<close> after stripping. Then the
  session sends "Goodbye." to the user, closes the connection, sends every registered
  handle a \<open>users\<close> snapshot that still lists the user, and only then, in the teardown,
  removes the user from the registry and sends the remaining handles the leave notice
  followed by a \<open>users\<close> snapshot without the user. Frames after \<open>/quit\<close> are not read.
\<close>

theorem stale_users_after_quit:
  assumes "map_of kvs ''type'' = Some (JStr ''chat'')"
    and "map_of kvs ''text'' = Some (JStr t)"
    and "py_strip (take MAX_MSG t) = ''/quit''"
    and "dict_get (clients st) username = Some ws"
    and "ws \<notin> closed st"
  shows "handler_loop username ws (Doc (JObj kvs) # rest) st =
     (None, st\<lparr>clients := dict_del (clients st) username,
        closed := insert ws (closed st),
        trace := trace st @ [Send ws (System ''Goodbye.''), Close ws] @
          map (\<lambda>(u, w). Send w (Users (dict_keys (clients st)))) (clients st) @
          map (\<lambda>(u, w). Send w (System (''*** '' @ username @ '' left the chat ***'')))
            (dict_del (clients st) username) @
          map (\<lambda>(u, w). Send w (Users (dict_keys (dict_del (clients st) username))))
            (dict_del (clients st) username)\<rparr>) \<and>
     username \<in> set (dict_keys (clients st)) \<and>
     username \<notin> set (dict_keys (dict_del (clients st) username))"
proof -
  have step: "handler_step username ws (Doc (JObj kvs)) st =
     (None, st\<lparr>closed := insert ws (closed st),
        trace := trace st @ [Send ws (System ''Goodbye.''), Close ws] @
          map (\<lambda>(u, w). Send w (Users (dict_keys (clients st)))) (clients st)\<rparr>)"
    using handler_step_chat [OF assms(1) assms(2), of username ws st]
    by (simp add: handle_command_quit [OF assms(3)])
  have reg: "dict_in username (clients st)"
    using assms(4) by (rule dict_get_in)
  have gone: "username \<notin> set (dict_keys (dict_del (clients st) username))"
    by (auto simp: dict_keys_def dict_del_def)
  show ?thesis
    using assms(4,5) reg gone
    by (simp add: step handler_loop_closed handler_finally_def broadcast_all_eq dict_in_def
        dict_keys_def)
qed

theorem stale_users_after_quit_witness:
  "py_strip (take MAX_MSG '' /quit '') = ''/quit'' \<and>
   dict_get (clients room3) ''alice'' = Some 11 \<and> 11 \<notin> closed room3 \<and>
   handler_loop ''alice'' 11 [chat_frame '' /quit '', chat_frame ''more''] room3 =
     (None,
      \<lparr>clients = [(''bob'', 12), (''carol'', 13)], closed = {11}, broken = {},
       trace = [Send 11 (System ''Goodbye.''), Close 11,
                Send 11 (Users [''alice'', ''bob'', ''carol'']),
                Send 12 (Users [''alice'', ''bob'', ''carol'']),
                Send 13 (Users [''alice'', ''bob'', ''carol'']),
                Send 12 (System ''*** alice left the chat ***''),
                Send 13 (System ''*** alice left the chat ***''),
                Send 12 (Users [''bob'', ''carol'']),
                Send 13 (Users [''bob'', ''carol''])],
       clock = ''T''\<rparr>)"
proof -
  have s: "py_strip (take MAX_MSG '' /quit '') = ''/quit''"
    by (simp add: MAX_MSG_def py_strip_def py_isspace_def)
  have g: "dict_get (clients room3) ''alice'' = Some 11" and o: "11 \<notin> closed room3"
    by (simp_all add: room3_def dict_get_def)
  show ?thesis
    using stale_users_after_quit [where kvs = "[(''type'', JStr ''chat''), (''text'', JStr '' /quit '')]"
        and t = "'' /quit ''" and username = "''alice''" and ws = 11 and st = room3
        and rest = "[chat_frame ''more'']", OF _ _ s g o]
    by (simp add: s chat_frame_def room3_def dict_get_def dict_keys_def dict_del_def
        del: handler_loop.simps)
qed

end
